theory Spec2Isabelle
  imports Complex_Main
begin

section \<open>Python primitives used by the loaders\<close>

text \<open>
  The exceptions of the Python runtime that the modelled code can raise by itself:
  \<^verbatim>\<open>range(0, n, 0)\<close> raises ValueError, a division by zero raises ZeroDivisionError.
\<close>

datatype py_error = ValueError | ZeroDivisionError

text \<open>
  \<^verbatim>\<open>range(start, stop, step)\<close> for a step different from zero: counting up while the
  index is below \<open>stop\<close> for a positive step, counting down while it is above \<open>stop\<close> for a
  negative one.
\<close>

function range_from :: "int \<Rightarrow> int \<Rightarrow> int \<Rightarrow> int list" where
  "range_from i stop step =
     (if 0 < step \<and> i < stop then i # range_from (i + step) stop step
      else if step < 0 \<and> stop < i then i # range_from (i + step) stop step
      else [])"
  by pat_completeness auto
termination
  by (relation "measure (\<lambda>(i, stop, step). nat (if 0 < step then stop - i else i - stop))") auto

declare range_from.simps [simp del]

definition py_range :: "int \<Rightarrow> int \<Rightarrow> int \<Rightarrow> py_error + int list" where
  "py_range start stop step =
     (if step = 0 then Inl ValueError else Inr (range_from start stop step))"

text \<open>
  \<^verbatim>\<open>xs[a:b]\<close>: a negative bound counts from the end, and both bounds are clamped to
  \<open>[0, len(xs)]\<close>; the slice is empty when the upper bound is not above the lower one.
\<close>

definition slice_bound :: "int \<Rightarrow> int \<Rightarrow> int" where
  "slice_bound n a = (let a' = (if a < 0 then a + n else a) in
                        if a' < 0 then 0 else if n < a' then n else a')"

definition py_slice :: "'a list \<Rightarrow> int \<Rightarrow> int \<Rightarrow> 'a list" where
  "py_slice xs a b =
     (let n = int (length xs); lo = slice_bound n a; hi = slice_bound n b
      in take (nat (hi - lo)) (drop (nat lo) xs))"

text \<open>
  \<^verbatim>\<open>x / y\<close> on numbers: ZeroDivisionError when the divisor is zero.
\<close>

definition py_truediv :: "real \<Rightarrow> real \<Rightarrow> py_error + real" where
  "py_truediv x y = (if y = 0 then Inl ZeroDivisionError else Inr (x / y))"

section \<open>optimized\_loader.py: the batch partitioner\<close>

text \<open>
  \<^verbatim>\<open>
  def chunk_documents(self, documents):
      for i in range(0, len(documents), self.batch_size):
          yield documents[i:i + self.batch_size]
  \<close>
  The generator is modelled by the list of the batches it yields when it is run to its end,
  or by the exception that running it raises.
\<close>

definition chunk_documents :: "int \<Rightarrow> 'a list \<Rightarrow> py_error + 'a list list" where
  "chunk_documents batch_size documents =
     (case py_range 0 (int (length documents)) batch_size of
        Inl e \<Rightarrow> Inl e
      | Inr idx \<Rightarrow> Inr (map (\<lambda>i. py_slice documents i (i + batch_size)) idx))"

section \<open>src/mongodb\_connection.py: the connection singleton\<close>

text \<open>
  The fields of \<^verbatim>\<open>MongoDBConnection\<close>. \<open>mongodb_uri\<close> is \<^verbatim>\<open>os.getenv('MONGODB_URI')\<close>:
  \<open>None\<close> when the variable is absent. A client, database or collection object is
  represented by the name it was built from, \<open>None\<close> standing for Python's \<^verbatim>\<open>None\<close>.
\<close>

record mongo_connection =
  mongodb_uri :: "string option"
  client :: "string option"
  database :: "string option"
  collection :: "string option"
  database_name :: string
  collection_name :: string

text \<open>
  The server side, as far as the code can change it: how many \<^verbatim>\<open>MongoClient\<close> objects
  were constructed and closed, and the batches handed to \<^verbatim>\<open>insert_many\<close>, in order.
\<close>

record 'd server =
  clients_created :: nat
  clients_closed :: nat
  written :: "'d list list"

text \<open>
  What constructing the client and pinging the server does for a connection string:
  the constructor raises, the ping raises (ConnectionFailure, ServerSelectionTimeoutError or
  any other exception), or the ping answers.
\<close>

datatype ping_reply = ClientRaises | PingRaises | PingOk

text \<open>
  \<^verbatim>\<open>
  def connect(self) -> bool:
      try:
          if not self.mongodb_uri:
              self.logger.error(...)
              return False
          self.client = MongoClient(self.mongodb_uri, ...)
          self.client.admin.command('ping')
          self.database = self.client[self.database_name]
          self.collection = self.database[self.collection_name]
          return True
      except ConnectionFailure as e: return False
      except ServerSelectionTimeoutError as e: return False
      except Exception as e: return False
  \<close>
\<close>

definition connect ::
  "(string \<Rightarrow> ping_reply) \<Rightarrow> mongo_connection \<Rightarrow> 'd server \<Rightarrow>
   bool \<times> mongo_connection \<times> 'd server" where
  "connect ping self srv =
     (case mongodb_uri self of
        None \<Rightarrow> (False, self, srv)
      | Some uri \<Rightarrow>
          if uri = [] then (False, self, srv)
          else
            (let srv1 = srv\<lparr>clients_created := clients_created srv + 1\<rparr> in
             case ping uri of
               ClientRaises \<Rightarrow> (False, self, srv1)
             | PingRaises \<Rightarrow> (False, self\<lparr>client := Some uri\<rparr>, srv1)
             | PingOk \<Rightarrow>
                 (True,
                  self\<lparr>client := Some uri,
                       database := Some (database_name self),
                       collection := Some (collection_name self)\<rparr>,
                  srv1)))"

text \<open>
  \<^verbatim>\<open>
  def disconnect(self):
      if self.client:
          self.client.close()
  \<close>
\<close>

definition disconnect :: "mongo_connection \<Rightarrow> 'd server \<Rightarrow> 'd server" where
  "disconnect self srv =
     (if client self \<noteq> None then srv\<lparr>clients_closed := clients_closed srv + 1\<rparr> else srv)"

section \<open>main.py: the driver\<close>

text \<open>
  \<^verbatim>\<open>
  def run(self, zip_paths) -> bool:
      try:
          self.print_banner()
          if not mongo_connection.connect():
              return False
          stats = mongo_connection.get_collection_stats()
          summary = self.process_zip_files(zip_paths)
          self.print_summary(summary)
          return self.stats["total_zips_processed"] > 0
      except KeyboardInterrupt: return False
      except Exception as e: return False
      finally:
          mongo_connection.disconnect()
  \<close>
  The extraction and upload of the archives (\<^verbatim>\<open>process_zip_files\<close>, which works on the file
  system) is a parameter: given the connection, the server and the paths it returns the
  number of archives processed, or \<open>None\<close> when it raises, and the server it leaves.
  \<^verbatim>\<open>get_collection_stats\<close> only reads and catches its own exceptions.
\<close>

definition run ::
  "(string \<Rightarrow> ping_reply) \<Rightarrow>
   (mongo_connection \<Rightarrow> 'd server \<Rightarrow> string list \<Rightarrow> nat option \<times> 'd server) \<Rightarrow>
   mongo_connection \<Rightarrow> 'd server \<Rightarrow> string list \<Rightarrow> bool \<times> mongo_connection \<times> 'd server" where
  "run ping process_zip_files conn srv zip_paths =
     (case connect ping conn srv of
        (ok, conn1, srv1) \<Rightarrow>
          if \<not> ok then (False, conn1, disconnect conn1 srv1)
          else
            (case process_zip_files conn1 srv1 zip_paths of
               (None, srv2) \<Rightarrow> (False, conn1, disconnect conn1 srv2)
             | (Some total_zips_processed, srv2) \<Rightarrow>
                 (0 < total_zips_processed, conn1, disconnect conn1 srv2)))"

text \<open>
  \<^verbatim>\<open>
  def main():
      ...
      if not zip_files:
          return 1
      processor = ZipToMongoProcessor()
      success = processor.run(zip_files)
      return 0 if success else 1
  \<close>
  from the point where the list of archives has been found.
\<close>

definition main ::
  "(string \<Rightarrow> ping_reply) \<Rightarrow>
   (mongo_connection \<Rightarrow> 'd server \<Rightarrow> string list \<Rightarrow> nat option \<times> 'd server) \<Rightarrow>
   mongo_connection \<Rightarrow> 'd server \<Rightarrow> string list \<Rightarrow> int \<times> mongo_connection \<times> 'd server" where
  "main ping process_zip_files conn srv zip_files =
     (if zip_files = [] then (1, conn, srv)
      else
        (case run ping process_zip_files conn srv zip_files of
           (success, conn1, srv1) \<Rightarrow> (if success then 0 else 1, conn1, srv1)))"

section \<open>The store seen by the bulk writers\<close>

text \<open>
  One element of the \<^verbatim>\<open>writeErrors\<close> list of a BulkWriteError: the index of the rejected
  document within its batch and the reason.
\<close>

datatype write_error = WriteError (we_index: nat) (we_errmsg: string)

text \<open>
  What \<^verbatim>\<open>collection.insert_many(batch, ordered=..., bypass_document_validation=...)\<close> does:
  it returns a result with its \<^verbatim>\<open>inserted_ids\<close>, raises BulkWriteError with a \<^verbatim>\<open>details\<close>
  dictionary (whose keys \<^verbatim>\<open>nInserted\<close> and \<^verbatim>\<open>writeErrors\<close> may be absent), or raises another
  exception with a message.
\<close>

datatype write_reply =
    InsertManyResult (inserted_ids: "nat list")
  | BulkWriteError (nInserted: "int option") (writeErrors: "write_error list option")
  | OtherException string

text \<open>
  A store answers a call from the batches written before it, the batch and the two flags.
\<close>

type_synonym 'd store = "'d list list \<Rightarrow> 'd list \<Rightarrow> bool \<Rightarrow> bool \<Rightarrow> write_reply"

section \<open>optimized\_loader.py: the bulk loader\<close>

record loader_stats =
  total_processed :: int
  total_inserted :: int
  total_errors :: int
  batches_processed :: int
  start_time :: "real option"
  end_time :: "real option"

record OptimizedBulkLoader =
  batch_size :: int
  stats :: loader_stats

text \<open>\<^verbatim>\<open>OptimizedBulkLoader.__init__\<close>\<close>

definition init_loader :: "int \<Rightarrow> OptimizedBulkLoader" where
  "init_loader b =
     \<lparr>batch_size = b,
      stats = \<lparr>total_processed = 0, total_inserted = 0, total_errors = 0,
               batches_processed = 0, start_time = None, end_time = None\<rparr>\<rparr>"

text \<open>
  The entries of the \<^verbatim>\<open>errors\<close> list: an element of \<^verbatim>\<open>writeErrors\<close>, the dictionary
  \<^verbatim>\<open>{"error": str(e), "batch_size": len(batch)}\<close> of a failed batch, or the string
  \<^verbatim>\<open>str(e)\<close> of the outer handler.
\<close>

datatype error_entry =
    PerItem write_error
  | BatchError string nat
  | Message string

text \<open>
  The dictionary returned by \<^verbatim>\<open>bulk_insert_optimized\<close>; the key \<^verbatim>\<open>batches_processed\<close> is
  only present on the normal path.
\<close>

record insert_summary =
  inserted_count :: int
  errors :: "error_entry list"
  batches_reported :: "int option"

text \<open>The local variables of the loop, the counter of the stats it updates, and the store.\<close>

record 'd load_state =
  ls_inserted :: int
  ls_errors :: "error_entry list"
  ls_batches :: int
  ls_written :: "'d list list"

text \<open>
  The body of the loop:
  \<^verbatim>\<open>
  try:
      result = mongo_connection.collection.insert_many(batch, **options)
      total_inserted += len(result.inserted_ids)
      self.stats["batches_processed"] += 1
  except BulkWriteError as bwe:
      total_inserted += bwe.details.get('nInserted', 0)
      errors.extend(bwe.details.get('writeErrors', []))
  except Exception as e:
      errors.append({"error": str(e), "batch_size": len(batch)})
  \<close>
\<close>

definition insert_batch ::
  "'d store \<Rightarrow> bool \<Rightarrow> bool \<Rightarrow> 'd load_state \<Rightarrow> 'd list \<Rightarrow> 'd load_state" where
  "insert_batch store ordered bypass st batch =
     (case store (ls_written st) batch ordered bypass of
        InsertManyResult ids \<Rightarrow>
          st\<lparr>ls_inserted := ls_inserted st + int (length ids),
             ls_batches := ls_batches st + 1,
             ls_written := ls_written st @ [batch]\<rparr>
      | BulkWriteError n es \<Rightarrow>
          st\<lparr>ls_inserted := ls_inserted st + (case n of None \<Rightarrow> 0 | Some k \<Rightarrow> k),
             ls_errors := ls_errors st @ map PerItem (case es of None \<Rightarrow> [] | Some l \<Rightarrow> l),
             ls_written := ls_written st @ [batch]\<rparr>
      | OtherException msg \<Rightarrow>
          st\<lparr>ls_errors := ls_errors st @ [BatchError msg (length batch)],
             ls_written := ls_written st @ [batch]\<rparr>)"

text \<open>\<^verbatim>\<open>for batch in tqdm(self.chunk_documents(documents), ...)\<close>\<close>

fun insert_batches ::
  "'d store \<Rightarrow> bool \<Rightarrow> bool \<Rightarrow> 'd load_state \<Rightarrow> 'd list list \<Rightarrow> 'd load_state" where
  "insert_batches store ordered bypass st [] = st"
| "insert_batches store ordered bypass st (batch # rest) =
     insert_batches store ordered bypass (insert_batch store ordered bypass st batch) rest"

definition py_floordiv :: "int \<Rightarrow> int \<Rightarrow> py_error + int" where
  "py_floordiv a b = (if b = 0 then Inl ZeroDivisionError else Inr (a div b))"

text \<open>\<^verbatim>\<open>str(e)\<close> for the exceptions of the runtime, as CPython words them.\<close>

fun str_error :: "py_error \<Rightarrow> string" where
  "str_error ValueError = ''range() arg 3 must not be zero''"
| "str_error ZeroDivisionError = ''integer division or modulo by zero''"

text \<open>The return value of the outer handler: \<^verbatim>\<open>{"inserted_count": 0, "errors": [str(e)]}\<close>.\<close>

definition outer_failure :: "string \<Rightarrow> insert_summary" where
  "outer_failure msg = \<lparr>inserted_count = 0, errors = [Message msg], batches_reported = None\<rparr>"

text \<open>
  \<^verbatim>\<open>
  def bulk_insert_optimized(self, documents, ordered=False, bypass_validation=True):
      if not documents:
          return {"inserted_count": 0, "errors": []}
      self.stats["start_time"] = datetime.now()
      try:
          if mongo_connection.collection is None:
              raise Exception("No hay conexion a MongoDB")
          total_inserted = 0
          errors = []
          for batch in tqdm(self.chunk_documents(documents), desc=...,
                            total=(len(documents) + self.batch_size - 1) // self.batch_size):
              ... (the body above)
          self.stats["total_inserted"] = total_inserted
          self.stats["total_errors"] = len(errors)
          self.stats["end_time"] = datetime.now()
          return {"inserted_count": total_inserted, "errors": errors,
                  "batches_processed": self.stats["batches_processed"]}
      except Exception as e:
          return {"inserted_count": 0, "errors": [str(e)]}
  \<close>
  (the accent of the source's message is dropped here). \<open>t0\<close> and \<open>t1\<close> are the two
  readings of \<^verbatim>\<open>datetime.now()\<close>, \<open>hist\<close> the batches the store
  has received before the call. The result is the returned dictionary, the loader and the
  batches the store has received after the call. The argument \<^verbatim>\<open>total\<close> of the progress bar
  is computed before the generator is first advanced.
\<close>

definition bulk_insert_optimized ::
  "'d store \<Rightarrow> mongo_connection \<Rightarrow> real \<Rightarrow> real \<Rightarrow> OptimizedBulkLoader \<Rightarrow> 'd list \<Rightarrow>
   bool \<Rightarrow> bool \<Rightarrow> 'd list list \<Rightarrow> insert_summary \<times> OptimizedBulkLoader \<times> 'd list list" where
  "bulk_insert_optimized store conn t0 t1 self documents ordered bypass_validation hist =
     (if documents = [] then
        (\<lparr>inserted_count = 0, errors = [], batches_reported = None\<rparr>, self, hist)
      else
        (let self1 = self\<lparr>stats := (stats self)\<lparr>start_time := Some t0\<rparr>\<rparr> in
         if collection conn = None then
           (outer_failure ''No hay conexion a MongoDB'', self1, hist)
         else
           (case py_floordiv (int (length documents) + batch_size self - 1) (batch_size self) of
              Inl e \<Rightarrow> (outer_failure (str_error e), self1, hist)
            | Inr bar_total \<Rightarrow>
                (case chunk_documents (batch_size self) documents of
                   Inl e \<Rightarrow> (outer_failure (str_error e), self1, hist)
                 | Inr batches \<Rightarrow>
                     (let st = insert_batches store ordered bypass_validation
                                 \<lparr>ls_inserted = 0, ls_errors = [],
                                  ls_batches = batches_processed (stats self1),
                                  ls_written = hist\<rparr> batches;
                          self2 = self1\<lparr>stats := (stats self1)
                                    \<lparr>total_inserted := ls_inserted st,
                                     total_errors := int (length (ls_errors st)),
                                     batches_processed := ls_batches st,
                                     end_time := Some t1\<rparr>\<rparr>
                      in (\<lparr>inserted_count = ls_inserted st, errors = ls_errors st,
                           batches_reported = Some (ls_batches st)\<rparr>,
                          self2, ls_written st))))))"

text \<open>
  \<^verbatim>\<open>
  def get_performance_stats(self):
      if self.stats["start_time"] and self.stats["end_time"]:
          duration = (self.stats["end_time"] - self.stats["start_time"]).total_seconds()
          docs_per_second = self.stats["total_inserted"] / duration if duration > 0 else 0
          return {..., "duration_seconds": duration,
                  "documents_per_second": round(docs_per_second, 2),
                  "batch_size_used": self.batch_size,
                  "average_batch_time": round(duration / self.stats["batches_processed"], 3)
                                        if self.stats["batches_processed"] > 0 else 0}
      return self.stats
  \<close>
  Python's \<^verbatim>\<open>round\<close> on floats is the parameter \<open>rnd\<close>.
\<close>

record performance =
  perf_total_inserted :: int
  perf_total_errors :: int
  perf_batches_processed :: int
  duration_seconds :: real
  documents_per_second :: real
  batch_size_used :: int
  average_batch_time :: real

datatype performance_report = Performance performance | RawStats loader_stats

definition get_performance_stats ::
  "(real \<Rightarrow> nat \<Rightarrow> real) \<Rightarrow> OptimizedBulkLoader \<Rightarrow> py_error + performance_report" where
  "get_performance_stats rnd self =
     (case (start_time (stats self), end_time (stats self)) of
        (Some s, Some e) \<Rightarrow>
          (let duration = e - s in
           case (if 0 < duration then py_truediv (real_of_int (total_inserted (stats self))) duration
                 else Inr 0) of
             Inl err \<Rightarrow> Inl err
           | Inr docs_per_second \<Rightarrow>
               (case (if 0 < batches_processed (stats self)
                      then py_truediv duration (real_of_int (batches_processed (stats self)))
                      else Inr 0) of
                  Inl err \<Rightarrow> Inl err
                | Inr avg \<Rightarrow>
                    Inr (Performance
                      \<lparr>perf_total_inserted = total_inserted (stats self),
                       perf_total_errors = total_errors (stats self),
                       perf_batches_processed = batches_processed (stats self),
                       duration_seconds = duration,
                       documents_per_second = rnd docs_per_second 2,
                       batch_size_used = batch_size self,
                       average_batch_time =
                         (if 0 < batches_processed (stats self) then rnd avg 3 else 0)\<rparr>)))
      | _ \<Rightarrow> Inr (RawStats (stats self)))"

section \<open>cargador\_optimizado.py: the second bulk writer\<close>

text \<open>
  What the handler of the loop catches: the exception raised by \<^verbatim>\<open>insert_many\<close>, or one
  raised by the runtime inside the \<^verbatim>\<open>try\<close> block.
\<close>

datatype caught = Raised write_reply | Runtime py_error

text \<open>
  The state of the loop of \<^verbatim>\<open>optimized_bulk_insert\<close>: the counter, the store, the number of
  readings of \<^verbatim>\<open>time.time()\<close> taken so far, the progress lines printed (percentage and
  rate), and the error lines printed (batch number and exception).
\<close>

record 'd bulk_state =
  bs_inserted :: int
  bs_written :: "'d list list"
  bs_ticks :: nat
  bs_printed :: "(real \<times> real) list"
  bs_errors :: "(int \<times> caught) list"

text \<open>
  \<^verbatim>\<open>
  for i in range(0, total_docs, batch_size):
      batch = documents[i:i + batch_size]
      try:
          result = collection.insert_many(batch, **bulk_config)
          inserted_count += len(result.inserted_ids)
          progress = (i + len(batch)) / total_docs * 100
          elapsed = time.time() - start_time
          rate = inserted_count / elapsed if elapsed > 0 else 0
          print(f"... {progress:.1f}% ... {rate:.0f} docs/seg")
      except Exception as e:
          print(f"... Error en lote {i//batch_size + 1}: {e}")
          continue
  \<close>
  \<open>clock k\<close> is the reading of the \<open>k\<close>-th call of \<^verbatim>\<open>time.time()\<close>; BulkWriteError is an
  \<^verbatim>\<open>Exception\<close> and takes the same handler as any other. The step size is not zero inside
  the loop, so \<^verbatim>\<open>i//batch_size\<close> is the floor division.
\<close>

definition bulk_step ::
  "'d store \<Rightarrow> (nat \<Rightarrow> real) \<Rightarrow> 'd list \<Rightarrow> int \<Rightarrow> real \<Rightarrow> 'd bulk_state \<Rightarrow> int \<Rightarrow> 'd bulk_state" where
  "bulk_step store clock documents bsize started st i =
     (let batch = py_slice documents i (i + bsize);
          st1 = st\<lparr>bs_written := bs_written st @ [batch]\<rparr> in
      case store (bs_written st) batch False True of
        InsertManyResult ids \<Rightarrow>
          (let st2 = st1\<lparr>bs_inserted := bs_inserted st + int (length ids)\<rparr> in
           case py_truediv (real_of_int (i + int (length batch))) (real (length documents)) of
             Inl e \<Rightarrow> st2\<lparr>bs_errors := bs_errors st2 @ [(i div bsize + 1, Runtime e)]\<rparr>
           | Inr q \<Rightarrow>
               (let elapsed = clock (bs_ticks st2) - started;
                    rate = (if 0 < elapsed then real_of_int (bs_inserted st2) / elapsed else 0)
                in st2\<lparr>bs_ticks := Suc (bs_ticks st2),
                       bs_printed := bs_printed st2 @ [(q * 100, rate)]\<rparr>))
      | BulkWriteError n es \<Rightarrow>
          st1\<lparr>bs_errors := bs_errors st1 @ [(i div bsize + 1, Raised (BulkWriteError n es))]\<rparr>
      | OtherException msg \<Rightarrow>
          st1\<lparr>bs_errors := bs_errors st1 @ [(i div bsize + 1, Raised (OtherException msg))]\<rparr>)"

text \<open>
  The loop from its initial state, over the indices of the range:
  \<^verbatim>\<open>
  start_time = time.time()
  inserted_count = 0
  for i in range(0, total_docs, batch_size):
      ... (the body above)
  \<close>
\<close>

definition bulk_loop ::
  "'d store \<Rightarrow> (nat \<Rightarrow> real) \<Rightarrow> 'd list \<Rightarrow> int \<Rightarrow> 'd list list \<Rightarrow> int list \<Rightarrow> 'd bulk_state" where
  "bulk_loop store clock documents bsize hist idx =
     foldl (bulk_step store clock documents bsize (clock 0))
       \<lparr>bs_inserted = 0, bs_written = hist, bs_ticks = 1, bs_printed = [], bs_errors = []\<rparr> idx"

text \<open>
  \<^verbatim>\<open>
  def optimized_bulk_insert(self, collection_name, documents, batch_size=1000):
      total_docs = len(documents)
      start_time = time.time()
      inserted_count = 0
      for i in range(0, total_docs, batch_size):
          ... (the body above)
      total_time = time.time() - start_time
      final_rate = inserted_count / total_time
      ...
      return inserted_count
  \<close>
  The result is the returned count or the exception that leaves the function, and the
  batches the store has received.
\<close>

definition optimized_bulk_insert ::
  "'d store \<Rightarrow> (nat \<Rightarrow> real) \<Rightarrow> 'd list \<Rightarrow> int \<Rightarrow> 'd list list \<Rightarrow> (py_error + int) \<times> 'd list list" where
  "optimized_bulk_insert store clock documents bsize hist =
     (let started = clock 0 in
      case py_range 0 (int (length documents)) bsize of
        Inl e \<Rightarrow> (Inl e, hist)
      | Inr idx \<Rightarrow>
          (let st = bulk_loop store clock documents bsize hist idx;
               total_time = clock (bs_ticks st) - started
           in case py_truediv (real_of_int (bs_inserted st)) total_time of
                Inl e \<Rightarrow> (Inl e, bs_written st)
              | Inr final_rate \<Rightarrow> (Inr (bs_inserted st), bs_written st)))"

section \<open>The replies of a run\<close>

text \<open>
  The replies a store gives when the batches are submitted to it one after the other,
  starting from the history \<open>hist\<close>.
\<close>

fun replies :: "'d store \<Rightarrow> bool \<Rightarrow> bool \<Rightarrow> 'd list list \<Rightarrow> 'd list list \<Rightarrow> write_reply list" where
  "replies store ordered bypass hist [] = []"
| "replies store ordered bypass hist (batch # rest) =
     store hist batch ordered bypass # replies store ordered bypass (hist @ [batch]) rest"

fun is_success :: "write_reply \<Rightarrow> bool" where
  "is_success (InsertManyResult ids) = True"
| "is_success (BulkWriteError n es) = False"
| "is_success (OtherException msg) = False"

text \<open>The entries a reply to a batch leaves in the error list.\<close>

fun reply_entries :: "write_reply \<Rightarrow> 'd list \<Rightarrow> error_entry list" where
  "reply_entries (InsertManyResult ids) batch = []"
| "reply_entries (BulkWriteError n es) batch = map PerItem (case es of None \<Rightarrow> [] | Some l \<Rightarrow> l)"
| "reply_entries (OtherException msg) batch = [BatchError msg (length batch)]"

text \<open>Stores used in the examples.\<close>

definition accepting_store :: "'d store" where
  "accepting_store hist batch ordered bypass = InsertManyResult [0..<length batch]"

text \<open>
  An unordered store that rejects the documents at the positions \<open>bad\<close> of every batch and
  inserts the others.
\<close>

definition rejecting_store :: "nat list \<Rightarrow> 'd store" where
  "rejecting_store bad hist batch ordered bypass =
     (let hit = filter (\<lambda>i. i < length batch) bad in
      if hit = [] then InsertManyResult [0..<length batch]
      else BulkWriteError (Some (int (length batch) - int (length hit)))
             (Some (map (\<lambda>i. WriteError i ''rejected'') hit)))"

text \<open>A store whose transport fails on the \<open>k\<close>-th call (counting from 0) and accepts otherwise.\<close>

definition dropping_store :: "nat \<Rightarrow> 'd store" where
  "dropping_store k hist batch ordered bypass =
     (if length hist = k then OtherException ''connection closed''
      else InsertManyResult [0..<length batch])"

text \<open>The count a reply adds to \<^verbatim>\<open>total_inserted\<close>.\<close>

fun reply_inserted :: "write_reply \<Rightarrow> int" where
  "reply_inserted (InsertManyResult ids) = int (length ids)"
| "reply_inserted (BulkWriteError n es) = (case n of None \<Rightarrow> 0 | Some k \<Rightarrow> k)"
| "reply_inserted (OtherException msg) = 0"

text \<open>
  The count a reply adds to \<^verbatim>\<open>inserted_count\<close> in \<open>optimized_bulk_insert\<close>, where every
  exception takes the same handler.
\<close>

fun plain_inserted :: "write_reply \<Rightarrow> int" where
  "plain_inserted (InsertManyResult ids) = int (length ids)"
| "plain_inserted (BulkWriteError n es) = 0"
| "plain_inserted (OtherException msg) = 0"

text \<open>The error lines the loop prints for the indices \<open>idx\<close> and the replies \<open>rs\<close> to them.\<close>

fun error_lines :: "int \<Rightarrow> int list \<Rightarrow> write_reply list \<Rightarrow> (int \<times> caught) list" where
  "error_lines bsize (i # idx) (r # rs) =
     (if is_success r then error_lines bsize idx rs
      else (i div bsize + 1, Raised r) # error_lines bsize idx rs)"
| "error_lines bsize idx rs = []"


text \<open>A store that answers its first calls from a script and accepts afterwards.\<close>

definition scripted_store :: "write_reply list \<Rightarrow> 'd store" where
  "scripted_store script hist batch ordered bypass =
     (if length hist < length script then script ! length hist
      else InsertManyResult [0..<length batch])"

text \<open>The singleton after a successful \<^verbatim>\<open>connect\<close>, and before any, for a given environment.\<close>

definition connected :: mongo_connection where
  "connected = \<lparr>mongodb_uri = Some ''mongodb://localhost:27017'',
                 client = Some ''mongodb://localhost:27017'',
                 database = Some ''zip_uploads'', collection = Some ''files'',
                 database_name = ''zip_uploads'', collection_name = ''files''\<rparr>"

definition fresh_connection :: "string option \<Rightarrow> mongo_connection" where
  "fresh_connection uri =
     \<lparr>mongodb_uri = uri, client = None, database = None, collection = None,
      database_name = ''zip_uploads'', collection_name = ''files''\<rparr>"

section \<open>Properties of the partitioner\<close>

lemma py_slice_window:
  assumes "0 \<le> a" and "a \<le> int (length xs)" and "0 \<le> k"
  shows "py_slice xs a (a + k) = take (nat k) (drop (nat a) xs)"
proof -
  let ?n = "int (length xs)"
  have lo: "slice_bound ?n a = a"
    using assms by (simp add: slice_bound_def)
  have hi: "slice_bound ?n (a + k) = min ?n (a + k)"
    using assms by (simp add: slice_bound_def Let_def min_def)
  have "take (nat (min ?n (a + k) - a)) (drop (nat a) xs) = take (nat k) (drop (nat a) xs)"
  proof (cases "a + k \<le> ?n")
    case True
    then show ?thesis by (simp add: min_def)
  next
    case False
    then have "length (drop (nat a) xs) \<le> nat k" "length (drop (nat a) xs) \<le> nat (?n - a)"
      using assms by auto
    then show ?thesis using False by (simp add: min_def)
  qed
  then show ?thesis
    by (simp add: py_slice_def Let_def lo hi)
qed

lemma concat_windows_from:
  "n = int (length xs) \<Longrightarrow> 0 < B \<Longrightarrow> 0 \<le> i \<Longrightarrow>
   concat (map (\<lambda>j. py_slice xs j (j + B)) (range_from i n B)) = drop (nat i) xs"
proof (induction i n B rule: range_from.induct)
  case (1 i n step)
  note n = \<open>n = int (length xs)\<close>
  show ?case
  proof (cases "i < n")
    case True
    have sl: "py_slice xs i (i + step) = take (nat step) (drop (nat i) xs)"
      using True "1.prems" by (intro py_slice_window) auto
    have ih: "concat (map (\<lambda>j. py_slice xs j (j + step)) (range_from (i + step) n step)) =
                drop (nat (i + step)) xs"
      using "1.IH"(1) True "1.prems" by simp
    have "nat (i + step) = nat step + nat i"
      using "1.prems" by (simp add: nat_add_distrib)
    then have dd: "drop (nat (i + step)) xs = drop (nat step) (drop (nat i) xs)"
      by simp
    have "concat (map (\<lambda>j. py_slice xs j (j + step)) (range_from i n step)) =
            py_slice xs i (i + step) @
            concat (map (\<lambda>j. py_slice xs j (j + step)) (range_from (i + step) n step))"
      using True "1.prems" by (subst range_from.simps) simp
    also have "\<dots> = take (nat step) (drop (nat i) xs) @ drop (nat step) (drop (nat i) xs)"
      by (simp only: sl ih dd)
    also have "\<dots> = drop (nat i) xs"
      by (rule append_take_drop_id)
    finally show ?thesis .
  next
    case False
    then show ?thesis
      using "1.prems" by (subst range_from.simps) simp
  qed
qed

lemma window_lengths_from:
  "n = int (length xs) \<Longrightarrow> 0 < B \<Longrightarrow> 0 \<le> i \<Longrightarrow> i \<le> n \<Longrightarrow>
   map (\<lambda>j. length (py_slice xs j (j + B))) (range_from i n B) =
     replicate (nat ((n - i) div B)) (nat B) @
     (if (n - i) mod B = 0 then [] else [nat ((n - i) mod B)])"
proof (induction i n B rule: range_from.induct)
  case (1 i n step)
  note n = \<open>n = int (length xs)\<close>
  show ?case
  proof (cases "i < n")
    case False
    then have "i = n" using "1.prems" by simp
    then show ?thesis
      by (subst range_from.simps) simp
  next
    case True
    have sl: "length (py_slice xs i (i + step)) = nat (min step (n - i))"
      using True "1.prems" by (subst py_slice_window) auto
    have unroll: "map (\<lambda>j. length (py_slice xs j (j + step))) (range_from i n step) =
                    nat (min step (n - i)) #
                    map (\<lambda>j. length (py_slice xs j (j + step))) (range_from (i + step) n step)"
      using True "1.prems" sl by (subst range_from.simps) simp
    show ?thesis
    proof (cases "i + step \<le> n")
      case full: True
      have ih: "map (\<lambda>j. length (py_slice xs j (j + step))) (range_from (i + step) n step) =
                  replicate (nat ((n - (i + step)) div step)) (nat step) @
                  (if (n - (i + step)) mod step = 0 then []
                   else [nat ((n - (i + step)) mod step)])"
        using "1.IH"(1) True "1.prems" full by simp
      define k where "k = n - (i + step)"
      have split: "n - i = k + step"
        by (simp add: k_def)
      have "(k + step) div step = k div step + 1" and "(k + step) mod step = k mod step"
        using \<open>0 < step\<close> by simp_all
      then have d: "(n - i) div step = (n - (i + step)) div step + 1"
        and m: "(n - i) mod step = (n - (i + step)) mod step"
        unfolding split by (simp_all add: k_def)
      have nn: "0 \<le> (n - (i + step)) div step"
        using full "1.prems" by (simp add: pos_imp_zdiv_nonneg_iff)
      have s: "nat ((n - i) div step) = Suc (nat ((n - (i + step)) div step))"
        using d nn by simp
      have "min step (n - i) = step"
        using full by simp
      then show ?thesis
        unfolding unroll ih s m by simp
    next
      case part: False
      have e: "range_from (i + step) n step = []"
        using part \<open>0 < step\<close> by (subst range_from.simps) simp
      have d: "(n - i) div step = 0" and m: "(n - i) mod step = n - i"
        using part True by (simp_all add: div_pos_pos_trivial mod_pos_pos_trivial)
      have "min step (n - i) = n - i"
        using part by simp
      then show ?thesis
        unfolding unroll e d m using True by simp
    qed
  qed
qed

lemma chunk_pos:
  assumes "0 < B"
  shows "chunk_documents B docs = Inr (map (\<lambda>i. py_slice docs i (i + B)) (range_from 0 (int (length docs)) B))"
  using assms by (simp add: chunk_documents_def py_range_def)

lemma ceil_div_nat:
  fixes n b :: nat
  assumes "0 < b"
  shows "n div b + (if n mod b = 0 then 0 else 1) = (n + b - 1) div b"
proof -
  define r where "r = n mod b"
  define q where "q = n div b"
  have n: "n = q * b + r" by (simp add: q_def r_def)
  have rb: "r < b" using assms by (simp add: r_def)
  show ?thesis
  proof (cases "r = 0")
    case True
    have "n + b - 1 = (b - 1) + q * b" using n True assms by simp
    moreover have "((b - 1) + q * b) div b = q + (b - 1) div b"
      by (rule div_mult_self1) (use assms in simp)
    moreover have "(b - 1) div b = 0" using assms by simp
    ultimately show ?thesis using True by (simp add: q_def r_def)
  next
    case False
    have "n + b - 1 = (r - 1) + (q + 1) * b" using n False by simp
    moreover have "((r - 1) + (q + 1) * b) div b = (q + 1) + (r - 1) div b"
      by (rule div_mult_self1) (use assms in simp)
    moreover have "(r - 1) div b = 0" using rb by simp
    ultimately show ?thesis using False by (simp add: q_def r_def)
  qed
qed


section \<open>Claims about the partitioner\<close>

text \<open>
  C1. For every list of documents of length N and every batch size B > 0,
  \<open>chunk_documents\<close> yields ceil(N/B) batches, each of length B except possibly the last,
  whose length is the remainder of N by B when that is not zero; no batch is empty, no batch
  at all is yielded for the empty list, and the concatenation of the batches is the input
  list, order preserved. For N = 7395 and B = 1000 the batches are 7 of size 1000 and one
  of size 395.
\<close>

theorem chunk_documents_partition:
  assumes "0 < B"
  shows "\<exists>bs. chunk_documents B docs = Inr bs
           \<and> length bs = (length docs + nat B - 1) div nat B
           \<and> concat bs = docs
           \<and> map length bs = replicate (length docs div nat B) (nat B) @
                 (if length docs mod nat B = 0 then [] else [length docs mod nat B])
           \<and> [] \<notin> set bs
           \<and> (docs = [] \<longrightarrow> bs = [])
           \<and> (B = 1000 \<and> length docs = 7395 \<longrightarrow>
                map length bs = [1000, 1000, 1000, 1000, 1000, 1000, 1000, 395])"
proof -
  let ?n = "length docs" and ?b = "nat B"
  define bs where "bs = map (\<lambda>i. py_slice docs i (i + B)) (range_from 0 (int ?n) B)"
  have b: "0 < ?b" "int ?b = B" using assms by simp_all
  have eq: "chunk_documents B docs = Inr bs"
    unfolding bs_def using assms by (rule chunk_pos)
  have cat: "concat bs = docs"
    unfolding bs_def using concat_windows_from [of "int ?n" docs B 0] assms by simp
  have "map length bs = replicate (nat (int ?n div B)) ?b @
          (if int ?n mod B = 0 then [] else [nat (int ?n mod B)])"
    unfolding bs_def using window_lengths_from [of "int ?n" docs B 0] assms
    by (simp add: comp_def)
  moreover have "int ?n div B = int (?n div ?b)" "int ?n mod B = int (?n mod ?b)"
    using b by (simp_all add: zdiv_int zmod_int)
  ultimately have lens: "map length bs = replicate (?n div ?b) ?b @
          (if ?n mod ?b = 0 then [] else [?n mod ?b])"
    by simp
  have "length bs = length (map length bs)" by simp
  also have "\<dots> = ?n div ?b + (if ?n mod ?b = 0 then 0 else 1)"
    unfolding lens by simp
  also have "\<dots> = (?n + ?b - 1) div ?b"
    using b(1) by (rule ceil_div_nat)
  finally have len: "length bs = (?n + ?b - 1) div ?b" .
  have "0 \<notin> set (map length bs)"
    unfolding lens using b(1) by (simp add: mod_greater_zero_iff_not_dvd)
  then have ne: "[] \<notin> set bs"
    by (metis image_eqI list.size(3) set_map)
  have emp: "docs = [] \<longrightarrow> bs = []"
    using cat ne by (cases bs) auto
  have ex: "B = 1000 \<and> length docs = 7395 \<longrightarrow>
        map length bs = [1000, 1000, 1000, 1000, 1000, 1000, 1000, 395]"
  proof
    assume h: "B = 1000 \<and> length docs = 7395"
    have seven: "replicate 7 x = [x, x, x, x, x, x, x]" for x :: nat
      by (simp add: numeral_eq_Suc)
    have "?b = 1000" "?n div 1000 = 7" "?n mod 1000 = 395"
      using h by simp_all
    then show "map length bs = [1000, 1000, 1000, 1000, 1000, 1000, 1000, 395]"
      unfolding lens by (simp add: seven)
  qed
  show ?thesis
    by (intro exI [of _ bs] conjI) (fact eq len cat lens ne emp ex)+
qed


theorem chunk_documents_partition_witness:
  "(0::int) < 3 \<and>
   (\<exists>bs. chunk_documents 3 [1, 2, 3, 4, 5, 6, 7::nat] = Inr bs
      \<and> bs = [[1, 2, 3], [4, 5, 6], [7]]
      \<and> length bs = 3 \<and> concat bs = [1, 2, 3, 4, 5, 6, 7] \<and> map length bs = [3, 3, 1])"
proof -
  have ev: "chunk_documents 3 [1, 2, 3, 4, 5, 6, 7::nat] = Inr [[1, 2, 3], [4, 5, 6], [7]]"
    by (simp add: chunk_documents_def py_range_def range_from.simps py_slice_def
        slice_bound_def)
  have pos: "(0::int) < 3" by simp
  from chunk_documents_partition [OF pos, of "[1, 2, 3, 4, 5, 6, 7::nat]"]
  obtain bs where "chunk_documents 3 [1, 2, 3, 4, 5, 6, 7::nat] = Inr bs"
    and "concat bs = [1, 2, 3, 4, 5, 6, 7]"
    by blast
  with ev have "bs = [[1, 2, 3], [4, 5, 6], [7]]" by simp
  then show ?thesis using ev by simp
qed

section \<open>Properties of the bulk loader\<close>


lemma insert_batch_written:
  "ls_written (insert_batch store ordered bypass st batch) = ls_written st @ [batch]"
  by (simp add: insert_batch_def split: write_reply.split)

lemma insert_batch_batches:
  "ls_batches (insert_batch store ordered bypass st batch) =
     ls_batches st + (if is_success (store (ls_written st) batch ordered bypass) then 1 else 0)"
  by (simp add: insert_batch_def split: write_reply.split)

lemma insert_batch_errors:
  "ls_errors (insert_batch store ordered bypass st batch) =
     ls_errors st @ reply_entries (store (ls_written st) batch ordered bypass) batch"
  by (simp add: insert_batch_def split: write_reply.split)

lemma insert_batch_inserted:
  "ls_inserted (insert_batch store ordered bypass st batch) =
     ls_inserted st + reply_inserted (store (ls_written st) batch ordered bypass)"
  by (simp add: insert_batch_def split: write_reply.split)

lemma insert_batches_written:
  "ls_written (insert_batches store ordered bypass st batches) = ls_written st @ batches"
  by (induction batches arbitrary: st) (simp_all add: insert_batch_written)

lemma insert_batches_batches:
  "ls_batches (insert_batches store ordered bypass st batches) =
     ls_batches st +
     int (length (filter is_success (replies store ordered bypass (ls_written st) batches)))"
  by (induction batches arbitrary: st)
     (simp_all add: insert_batch_written insert_batch_batches)

lemma insert_batches_errors:
  "ls_errors (insert_batches store ordered bypass st batches) =
     ls_errors st @
     concat (map2 reply_entries (replies store ordered bypass (ls_written st) batches) batches)"
  by (induction batches arbitrary: st)
     (simp_all add: insert_batch_written insert_batch_errors)

lemma insert_batches_inserted:
  "ls_inserted (insert_batches store ordered bypass st batches) =
     ls_inserted st +
     sum_list (map reply_inserted (replies store ordered bypass (ls_written st) batches))"
  by (induction batches arbitrary: st)
     (simp_all add: insert_batch_written insert_batch_inserted)

lemma replies_append:
  "replies store ordered bypass hist (xs @ ys) =
     replies store ordered bypass hist xs @ replies store ordered bypass (hist @ xs) ys"
  by (induction xs arbitrary: hist) simp_all

lemma length_replies: "length (replies store ordered bypass hist xs) = length xs"
  by (induction xs arbitrary: hist) simp_all

lemma bulk_insert_normal:
  assumes "documents \<noteq> []" and "collection conn \<noteq> None"
    and "chunk_documents (batch_size self) documents = Inr batches"
  shows "bulk_insert_optimized store conn t0 t1 self documents ordered bypass hist =
     (let st = insert_batches store ordered bypass
                 \<lparr>ls_inserted = 0, ls_errors = [],
                  ls_batches = batches_processed (stats self), ls_written = hist\<rparr> batches
      in (\<lparr>inserted_count = ls_inserted st, errors = ls_errors st,
           batches_reported = Some (ls_batches st)\<rparr>,
          self\<lparr>stats := (stats self)
            \<lparr>total_inserted := ls_inserted st,
             total_errors := int (length (ls_errors st)),
             batches_processed := ls_batches st,
             start_time := Some t0,
             end_time := Some t1\<rparr>\<rparr>,
          ls_written st))"
proof -
  have "batch_size self \<noteq> 0"
    using assms(3) by (auto simp: chunk_documents_def py_range_def)
  moreover obtain c where "collection conn = Some c"
    using assms(2) by auto
  ultimately show ?thesis
    using assms(1,3) by (simp add: bulk_insert_optimized_def py_floordiv_def Let_def)
qed


lemma bulk_insert_early:
  assumes "documents = [] \<or> collection conn = None \<or> batch_size self = 0"
  shows "snd (snd (bulk_insert_optimized store conn t0 t1 self documents ordered bypass hist)) = hist"
    and "batches_processed (stats (fst (snd
           (bulk_insert_optimized store conn t0 t1 self documents ordered bypass hist)))) =
         batches_processed (stats self)"
  using assms
  by (auto simp: bulk_insert_optimized_def py_floordiv_def Let_def chunk_documents_def
      py_range_def)

lemma chunk_documents_nonzero:
  "b \<noteq> 0 \<Longrightarrow> \<exists>batches. chunk_documents b documents = Inr batches"
  by (simp add: chunk_documents_def py_range_def)

text \<open>
  C9. For the empty document list \<open>bulk_insert_optimized\<close> returns
  \<^verbatim>\<open>{"inserted_count": 0, "errors": []}\<close> at once: the store receives no batch and the
  loader, with its start time, end time and counters, is the one it was before the call.
\<close>

theorem empty_run_leaves_state:
  "bulk_insert_optimized store conn t0 t1 self [] ordered bypass hist =
     (\<lparr>inserted_count = 0, errors = [], batches_reported = None\<rparr>, self, hist)"
  by (simp add: bulk_insert_optimized_def)

lemma bulk_insert_early_count:
  assumes "documents = [] \<or> collection conn = None \<or> batch_size self = 0"
  shows "inserted_count (fst (bulk_insert_optimized store conn t0 t1 self documents ordered bypass hist)) = 0"
  using assms
  by (auto simp: bulk_insert_optimized_def py_floordiv_def Let_def chunk_documents_def
      py_range_def outer_failure_def)

text \<open>
  C10. \<open>batches_processed\<close> counts the fully successful batches only: after any call of
  \<open>bulk_insert_optimized\<close> the counter has grown by the number of submitted batches whose
  write raised no error, so a batch ending in a partial or in a hard failure is not counted,
  while the count recovered from every reply, that of a partial failure included, is in the
  returned inserted count. For a loader that starts at zero the counter is that number.
\<close>

theorem batches_processed_counts_successes:
  "let R = bulk_insert_optimized store conn t0 t1 self documents ordered bypass hist;
       sub = drop (length hist) (snd (snd R));
       rs = replies store ordered bypass hist sub
   in snd (snd R) = hist @ sub
      \<and> batches_processed (stats (fst (snd R))) =
          batches_processed (stats self) + int (length (filter is_success rs))
      \<and> batches_processed (stats (fst (snd R))) - batches_processed (stats self) \<le>
          int (length sub)
      \<and> inserted_count (fst R) = sum_list (map reply_inserted rs)"
proof (cases "documents = [] \<or> collection conn = None \<or> batch_size self = 0")
  case True
  from bulk_insert_early [OF True] bulk_insert_early_count [OF True] show ?thesis
    by (simp add: Let_def)
next
  case False
  then obtain batches where "chunk_documents (batch_size self) documents = Inr batches"
    using chunk_documents_nonzero by blast
  with False have n: "bulk_insert_optimized store conn t0 t1 self documents ordered bypass hist =
     (let st = insert_batches store ordered bypass
                 \<lparr>ls_inserted = 0, ls_errors = [],
                  ls_batches = batches_processed (stats self), ls_written = hist\<rparr> batches
      in (\<lparr>inserted_count = ls_inserted st, errors = ls_errors st,
           batches_reported = Some (ls_batches st)\<rparr>,
          self\<lparr>stats := (stats self)
            \<lparr>total_inserted := ls_inserted st,
             total_errors := int (length (ls_errors st)),
             batches_processed := ls_batches st,
             start_time := Some t0,
             end_time := Some t1\<rparr>\<rparr>,
          ls_written st))"
    by (intro bulk_insert_normal) auto
  have "length (filter is_success (replies store ordered bypass hist batches)) \<le> length batches"
    by (metis length_filter_le length_replies)
  then show ?thesis
    unfolding n
    by (simp add: Let_def insert_batches_written insert_batches_batches insert_batches_inserted)
qed

theorem batches_processed_counts_successes_witness:
  "let script = [InsertManyResult [0, 1],
                 BulkWriteError (Some 1) (Some [WriteError 1 ''duplicate key'']),
                 OtherException ''timed out''];
       R = bulk_insert_optimized (scripted_store script) connected 0 1 (init_loader 2)
             [1, 2, 3, 4, 5, 6::nat] False True []
   in snd (snd R) = [[1, 2], [3, 4], [5, 6]]
      \<and> replies (scripted_store script) False True [] (snd (snd R)) = script
      \<and> batches_processed (stats (fst (snd R))) = 1
      \<and> inserted_count (fst R) = 3"
proof -
  let ?script = "[InsertManyResult [0, 1],
                  BulkWriteError (Some 1) (Some [WriteError 1 ''duplicate key'']),
                  OtherException ''timed out'']"
  let ?R = "bulk_insert_optimized (scripted_store ?script) connected 0 1 (init_loader 2)
              [1, 2, 3, 4, 5, 6::nat] False True []"
  have w: "snd (snd ?R) = [[1, 2], [3, 4], [5, 6]]"
    by (simp add: bulk_insert_optimized_def init_loader_def connected_def py_floordiv_def
        chunk_documents_def py_range_def range_from.simps py_slice_def slice_bound_def
        insert_batch_def scripted_store_def Let_def)
  have r: "replies (scripted_store ?script) False True [] [[1, 2], [3, 4], [5, 6::nat]] = ?script"
    by (simp add: scripted_store_def)
  have z: "batches_processed (stats (init_loader 2)) = 0"
    by (simp add: init_loader_def)
  note t = batches_processed_counts_successes
             [where store = "scripted_store ?script" and conn = connected and ?t0.0 = 0
                and ?t1.0 = 1 and self = "init_loader 2"
                and documents = "[1, 2, 3, 4, 5, 6::nat]" and ordered = False
                and bypass = True and hist = "[]", unfolded Let_def]
  have bp: "batches_processed (stats (fst (snd ?R))) = 1"
    using t [THEN conjunct2, THEN conjunct1] unfolding w by (simp add: scripted_store_def z)
  have ic: "inserted_count (fst ?R) = 3"
    using t [THEN conjunct2, THEN conjunct2, THEN conjunct2] unfolding w
    by (simp add: scripted_store_def)
  show ?thesis
    unfolding Let_def w by (intro conjI) (fact refl r bp ic | use bp ic w in simp)+
qed

text \<open>
  C2. The claim is that \<open>total_processed\<close> equals the number of documents of the run. On three
  documents in batches of two, all accepted by the store, both batches are submitted and
  three documents are inserted, and \<open>total_processed\<close> is still 0: the field is initialised
  by the constructor and no statement of the loader assigns it.
\<close>

theorem total_processed_never_counts:
  "let R = bulk_insert_optimized accepting_store connected 0 1 (init_loader 2)
             [1, 2, 3::nat] False True []
   in total_processed (stats (fst (snd R))) = 0
      \<and> snd (snd R) = [[1, 2], [3]]
      \<and> inserted_count (fst R) = 3
      \<and> total_inserted (stats (fst (snd R))) = 3"
  by (simp add: bulk_insert_optimized_def init_loader_def connected_def py_floordiv_def
      chunk_documents_def py_range_def range_from.simps py_slice_def slice_bound_def
      insert_batch_def accepting_store_def Let_def)


lemma run_split:
  assumes "documents \<noteq> []" and "collection conn \<noteq> None"
    and "chunk_documents (batch_size self) documents = Inr (pre @ batch # post)"
  shows "inserted_count (fst (bulk_insert_optimized store conn t0 t1 self documents ordered bypass hist)) =
           sum_list (map reply_inserted (replies store ordered bypass hist pre)) +
           reply_inserted (store (hist @ pre) batch ordered bypass) +
           sum_list (map reply_inserted (replies store ordered bypass (hist @ pre @ [batch]) post))"
    and "errors (fst (bulk_insert_optimized store conn t0 t1 self documents ordered bypass hist)) =
           concat (map2 reply_entries (replies store ordered bypass hist pre) pre) @
           reply_entries (store (hist @ pre) batch ordered bypass) batch @
           concat (map2 reply_entries (replies store ordered bypass (hist @ pre @ [batch]) post) post)"
    and "total_inserted (stats (fst (snd (bulk_insert_optimized store conn t0 t1 self documents ordered bypass hist)))) =
           inserted_count (fst (bulk_insert_optimized store conn t0 t1 self documents ordered bypass hist))"
    and "total_errors (stats (fst (snd (bulk_insert_optimized store conn t0 t1 self documents ordered bypass hist)))) =
           int (length (errors (fst (bulk_insert_optimized store conn t0 t1 self documents ordered bypass hist))))"
proof -
  note n = bulk_insert_normal [OF assms, of store t0 t1 ordered bypass hist]
  have r: "replies store ordered bypass hist (pre @ batch # post) =
             replies store ordered bypass hist pre @
             store (hist @ pre) batch ordered bypass #
             replies store ordered bypass (hist @ pre @ [batch]) post"
    by (simp add: replies_append)
  show "inserted_count (fst (bulk_insert_optimized store conn t0 t1 self documents ordered bypass hist)) =
           sum_list (map reply_inserted (replies store ordered bypass hist pre)) +
           reply_inserted (store (hist @ pre) batch ordered bypass) +
           sum_list (map reply_inserted (replies store ordered bypass (hist @ pre @ [batch]) post))"
    unfolding n by (simp add: Let_def insert_batches_inserted r)
  show "errors (fst (bulk_insert_optimized store conn t0 t1 self documents ordered bypass hist)) =
           concat (map2 reply_entries (replies store ordered bypass hist pre) pre) @
           reply_entries (store (hist @ pre) batch ordered bypass) batch @
           concat (map2 reply_entries (replies store ordered bypass (hist @ pre @ [batch]) post) post)"
    unfolding n by (simp add: Let_def insert_batches_errors r length_replies)
  show "total_inserted (stats (fst (snd (bulk_insert_optimized store conn t0 t1 self documents ordered bypass hist)))) =
           inserted_count (fst (bulk_insert_optimized store conn t0 t1 self documents ordered bypass hist))"
    unfolding n by (simp add: Let_def)
  show "total_errors (stats (fst (snd (bulk_insert_optimized store conn t0 t1 self documents ordered bypass hist)))) =
           int (length (errors (fst (bulk_insert_optimized store conn t0 t1 self documents ordered bypass hist))))"
    unfolding n by (simp add: Let_def)
qed

text \<open>
  C3. When the store answers a batch with a BulkWriteError whose details carry the count
  \<open>k\<close> of inserted documents and the list \<open>es\<close> of per-item failures, the run adds \<open>k\<close> to
  the inserted total and the descriptors of \<open>es\<close>, in order, to the error list, between what
  the batches before and after it contribute; the stats record the inserted total and the
  length of the error list.
\<close>

theorem partial_failure_recovered:
  assumes "documents \<noteq> []" and "collection conn \<noteq> None"
    and "chunk_documents (batch_size self) documents = Inr (pre @ batch # post)"
    and "store (hist @ pre) batch ordered bypass = BulkWriteError (Some k) (Some es)"
  shows "let R = bulk_insert_optimized store conn t0 t1 self documents ordered bypass hist;
             before = replies store ordered bypass hist pre;
             after = replies store ordered bypass (hist @ pre @ [batch]) post
         in inserted_count (fst R) =
              sum_list (map reply_inserted before) + k + sum_list (map reply_inserted after)
          \<and> errors (fst R) =
              concat (map2 reply_entries before pre) @ map PerItem es @
              concat (map2 reply_entries after post)
          \<and> total_inserted (stats (fst (snd R))) = inserted_count (fst R)
          \<and> total_errors (stats (fst (snd R))) = int (length (errors (fst R)))"
  using run_split [OF assms(1-3), of store t0 t1 ordered bypass hist] assms(4)
  by (simp add: Let_def)

theorem partial_failure_recovered_witness:
  "let docs = [0, 1, 2, 3, 4, 5, 6, 7, 8, 9::nat];
       R = bulk_insert_optimized (rejecting_store [2, 5]) connected 0 1 (init_loader 10)
             docs False True []
   in docs \<noteq> [] \<and> collection connected \<noteq> None
      \<and> chunk_documents (batch_size (init_loader 10)) docs = Inr ([] @ docs # [])
      \<and> rejecting_store [2, 5] ([] @ []) docs False True =
           BulkWriteError (Some 8) (Some [WriteError 2 ''rejected'', WriteError 5 ''rejected''])
      \<and> inserted_count (fst R) = 8
      \<and> errors (fst R) = [PerItem (WriteError 2 ''rejected''), PerItem (WriteError 5 ''rejected'')]
      \<and> total_inserted (stats (fst (snd R))) = 8
      \<and> total_errors (stats (fst (snd R))) = 2"
proof -
  let ?docs = "[0, 1, 2, 3, 4, 5, 6, 7, 8, 9::nat]"
  have a: "?docs \<noteq> []" by simp
  have b: "collection connected \<noteq> None" by (simp add: connected_def)
  have c: "chunk_documents (batch_size (init_loader 10)) ?docs = Inr ([] @ ?docs # [])"
    by (simp add: init_loader_def chunk_documents_def py_range_def range_from.simps
        py_slice_def slice_bound_def)
  have d: "rejecting_store [2, 5] ([] @ []) ?docs False True =
             BulkWriteError (Some 8) (Some [WriteError 2 ''rejected'', WriteError 5 ''rejected''])"
    by (simp add: rejecting_store_def)
  from partial_failure_recovered
         [where pre = "[]" and post = "[]" and hist = "[]" and ?t0.0 = 0 and ?t1.0 = 1
            and store = "rejecting_store [2, 5]" and batch = ?docs and documents = ?docs
            and ordered = False and bypass = True,
          OF a b c d]
       a b c d
  show ?thesis
    by (simp add: Let_def)
qed

text \<open>
  C5, as the code has it. When the store raises another exception on a batch, the run
  appends one entry to the error list, carrying the message and the size of the batch, and
  \<open>total_errors\<close>, the length of the error list, grows by one for that batch; nothing is added
  to the inserted total for it.
\<close>

theorem hard_failure_single_entry:
  assumes "documents \<noteq> []" and "collection conn \<noteq> None"
    and "chunk_documents (batch_size self) documents = Inr (pre @ batch # post)"
    and "store (hist @ pre) batch ordered bypass = OtherException msg"
  shows "let R = bulk_insert_optimized store conn t0 t1 self documents ordered bypass hist;
             before = concat (map2 reply_entries (replies store ordered bypass hist pre) pre);
             after = concat (map2 reply_entries
                       (replies store ordered bypass (hist @ pre @ [batch]) post) post)
         in errors (fst R) = before @ [BatchError msg (length batch)] @ after
          \<and> total_errors (stats (fst (snd R))) = int (length before) + 1 + int (length after)
          \<and> inserted_count (fst R) =
              sum_list (map reply_inserted (replies store ordered bypass hist pre)) +
              sum_list (map reply_inserted (replies store ordered bypass (hist @ pre @ [batch]) post))"
  using run_split [OF assms(1-3), of store t0 t1 ordered bypass hist] assms(4)
  by (simp add: Let_def)

text \<open>
  C5 as stated fails: with five batches of two documents and a transport failure on the
  third, the final \<open>total_errors\<close> is 1, below the size 2 of the failed batch.
\<close>

theorem hard_failure_counts_whole_batch_counterexample:
  "let R = bulk_insert_optimized (dropping_store 2) connected 0 1 (init_loader 2)
             [0, 1, 2, 3, 4, 5, 6, 7, 8, 9::nat] False True []
   in snd (snd R) = [[0, 1], [2, 3], [4, 5], [6, 7], [8, 9]]
      \<and> errors (fst R) = [BatchError ''connection closed'' 2]
      \<and> total_errors (stats (fst (snd R))) = 1
      \<and> \<not> int (length (snd (snd R) ! 2)) \<le> total_errors (stats (fst (snd R)))"
  by (simp add: bulk_insert_optimized_def init_loader_def connected_def py_floordiv_def
      chunk_documents_def py_range_def range_from.simps py_slice_def slice_bound_def
      insert_batch_def dropping_store_def Let_def)


theorem hard_failure_single_entry_witness:
  "let docs = [0, 1, 2, 3, 4, 5, 6, 7, 8, 9::nat];
       R = bulk_insert_optimized (dropping_store 2) connected 0 1 (init_loader 2)
             docs False True []
   in docs \<noteq> [] \<and> collection connected \<noteq> None
      \<and> chunk_documents (batch_size (init_loader 2)) docs =
           Inr ([[0, 1], [2, 3]] @ [4, 5] # [[6, 7], [8, 9]])
      \<and> dropping_store 2 ([] @ [[0, 1], [2, 3]]) [4, 5::nat] False True =
           OtherException ''connection closed''
      \<and> errors (fst R) = [BatchError ''connection closed'' 2]
      \<and> total_errors (stats (fst (snd R))) = 1
      \<and> inserted_count (fst R) = 8"
proof -
  let ?docs = "[0, 1, 2, 3, 4, 5, 6, 7, 8, 9::nat]"
  have a: "?docs \<noteq> []" by simp
  have b: "collection connected \<noteq> None" by (simp add: connected_def)
  have c: "chunk_documents (batch_size (init_loader 2)) ?docs =
             Inr ([[0, 1], [2, 3]] @ [4, 5] # [[6, 7], [8, 9]])"
    by (simp add: init_loader_def chunk_documents_def py_range_def range_from.simps
        py_slice_def slice_bound_def)
  have d: "dropping_store 2 ([] @ [[0, 1], [2, 3]]) [4, 5::nat] False True =
             OtherException ''connection closed''"
    by (simp add: dropping_store_def)
  from hard_failure_single_entry
         [where pre = "[[0, 1], [2, 3]]" and post = "[[6, 7], [8, 9]]" and hist = "[]"
            and ?t0.0 = 0 and ?t1.0 = 1 and store = "dropping_store 2" and batch = "[4, 5]"
            and documents = ?docs and ordered = False and bypass = True,
          OF a b c d]
       a b c d
  show ?thesis
    by (simp add: Let_def dropping_store_def)
qed

lemma replies_nth:
  "j < length batches \<Longrightarrow>
   replies store ordered bypass hist batches ! j =
     store (hist @ take j batches) (batches ! j) ordered bypass"
proof (induction batches arbitrary: hist j)
  case Nil
  then show ?case by simp
next
  case (Cons batch rest)
  then show ?case by (cases j) simp_all
qed

lemma entries_recorded:
  assumes "j < length batches"
  shows "set (reply_entries (store (hist @ take j batches) (batches ! j) ordered bypass)
                (batches ! j))
         \<subseteq> set (concat (map2 reply_entries (replies store ordered bypass hist batches) batches))"
proof -
  let ?rs = "replies store ordered bypass hist batches"
  have len: "j < length (map2 reply_entries ?rs batches)"
    using assms by (simp add: length_replies)
  have "map2 reply_entries ?rs batches ! j = reply_entries (?rs ! j) (batches ! j)"
    using assms by (simp add: length_replies)
  then have "reply_entries (?rs ! j) (batches ! j) \<in> set (map2 reply_entries ?rs batches)"
    using len by (metis nth_mem)
  then show ?thesis
    unfolding replies_nth [OF assms] by auto
qed

section \<open>Continuing after a hard failure\<close>

lemma bulk_step_written:
  "bs_written (bulk_step store clock documents bsize started st i) =
     bs_written st @ [py_slice documents i (i + bsize)]"
  by (simp add: bulk_step_def Let_def split: write_reply.split sum.split)

lemma bulk_step_inserted:
  "bs_inserted (bulk_step store clock documents bsize started st i) =
     bs_inserted st +
     plain_inserted (store (bs_written st) (py_slice documents i (i + bsize)) False True)"
  by (simp add: bulk_step_def Let_def split: write_reply.split sum.split)

lemma bulk_step_errors:
  "documents \<noteq> [] \<Longrightarrow>
   bs_errors (bulk_step store clock documents bsize started st i) =
     bs_errors st @
     error_lines bsize [i] [store (bs_written st) (py_slice documents i (i + bsize)) False True]"
  by (simp add: bulk_step_def py_truediv_def Let_def split: write_reply.split)

lemma bulk_step_ticks:
  "documents \<noteq> [] \<Longrightarrow>
   bs_ticks (bulk_step store clock documents bsize started st i) =
     bs_ticks st +
     (if is_success (store (bs_written st) (py_slice documents i (i + bsize)) False True)
      then 1 else 0)"
  by (simp add: bulk_step_def py_truediv_def Let_def split: write_reply.split)

lemma foldl_bulk_step_written:
  "bs_written (foldl (bulk_step store clock documents bsize started) st idx) =
     bs_written st @ map (\<lambda>i. py_slice documents i (i + bsize)) idx"
  by (induction idx arbitrary: st) (simp_all add: bulk_step_written)

lemma foldl_bulk_step_inserted:
  "bs_inserted (foldl (bulk_step store clock documents bsize started) st idx) =
     bs_inserted st +
     sum_list (map plain_inserted
       (replies store False True (bs_written st)
          (map (\<lambda>i. py_slice documents i (i + bsize)) idx)))"
  by (induction idx arbitrary: st) (simp_all add: bulk_step_written bulk_step_inserted)

lemma foldl_bulk_step_errors:
  "documents \<noteq> [] \<Longrightarrow>
   bs_errors (foldl (bulk_step store clock documents bsize started) st idx) =
     bs_errors st @
     error_lines bsize idx
       (replies store False True (bs_written st)
          (map (\<lambda>i. py_slice documents i (i + bsize)) idx))"
  by (induction idx arbitrary: st) (simp_all add: bulk_step_written bulk_step_errors)

lemma foldl_bulk_step_ticks:
  "documents \<noteq> [] \<Longrightarrow>
   bs_ticks (foldl (bulk_step store clock documents bsize started) st idx) =
     bs_ticks st +
     length (filter is_success
       (replies store False True (bs_written st)
          (map (\<lambda>i. py_slice documents i (i + bsize)) idx)))"
  by (induction idx arbitrary: st) (simp_all add: bulk_step_written bulk_step_ticks)


lemma chunk_documents_indices:
  assumes "chunk_documents bsize documents = Inr batches"
  shows "bsize \<noteq> 0"
    and "py_range 0 (int (length documents)) bsize =
           Inr (range_from 0 (int (length documents)) bsize)"
    and "batches = map (\<lambda>i. py_slice documents i (i + bsize))
                     (range_from 0 (int (length documents)) bsize)"
proof -
  show nz: "bsize \<noteq> 0"
    using assms by (auto simp: chunk_documents_def py_range_def)
  then show "py_range 0 (int (length documents)) bsize =
               Inr (range_from 0 (int (length documents)) bsize)"
    by (simp add: py_range_def)
  then show "batches = map (\<lambda>i. py_slice documents i (i + bsize))
                         (range_from 0 (int (length documents)) bsize)"
    using assms by (simp add: chunk_documents_def)
qed

lemma range_from_no_documents: "range_from 0 0 bsize = []"
  by (subst range_from.simps) simp

lemma bulk_loop_trace:
  assumes "chunk_documents bsize documents = Inr batches"
  shows "bs_written (bulk_loop store clock documents bsize hist
            (range_from 0 (int (length documents)) bsize)) = hist @ batches"
    and "bs_inserted (bulk_loop store clock documents bsize hist
            (range_from 0 (int (length documents)) bsize)) =
         sum_list (map plain_inserted (replies store False True hist batches))"
    and "bs_errors (bulk_loop store clock documents bsize hist
            (range_from 0 (int (length documents)) bsize)) =
         error_lines bsize (range_from 0 (int (length documents)) bsize)
           (replies store False True hist batches)"
    and "bs_ticks (bulk_loop store clock documents bsize hist
            (range_from 0 (int (length documents)) bsize)) =
         1 + length (filter is_success (replies store False True hist batches))"
proof -
  note b = chunk_documents_indices(3) [OF assms]
  show "bs_written (bulk_loop store clock documents bsize hist
            (range_from 0 (int (length documents)) bsize)) = hist @ batches"
    unfolding b by (simp add: bulk_loop_def foldl_bulk_step_written)
  show "bs_inserted (bulk_loop store clock documents bsize hist
            (range_from 0 (int (length documents)) bsize)) =
         sum_list (map plain_inserted (replies store False True hist batches))"
    unfolding b by (simp add: bulk_loop_def foldl_bulk_step_inserted)
  show "bs_errors (bulk_loop store clock documents bsize hist
            (range_from 0 (int (length documents)) bsize)) =
         error_lines bsize (range_from 0 (int (length documents)) bsize)
           (replies store False True hist batches)"
  proof (cases "documents = []")
    case True
    then show ?thesis
      unfolding b by (simp add: bulk_loop_def range_from_no_documents)
  next
    case False
    then show ?thesis
      unfolding b by (simp add: bulk_loop_def foldl_bulk_step_errors)
  qed
  show "bs_ticks (bulk_loop store clock documents bsize hist
            (range_from 0 (int (length documents)) bsize)) =
         1 + length (filter is_success (replies store False True hist batches))"
  proof (cases "documents = []")
    case True
    then show ?thesis
      unfolding b by (simp add: bulk_loop_def range_from_no_documents)
  next
    case False
    then show ?thesis
      unfolding b by (simp add: bulk_loop_def foldl_bulk_step_ticks)
  qed
qed

lemma optimized_bulk_insert_result:
  assumes "chunk_documents bsize documents = Inr batches"
  shows "optimized_bulk_insert store clock documents bsize hist =
           (if clock (1 + length (filter is_success (replies store False True hist batches)))
                 = clock 0
            then Inl ZeroDivisionError
            else Inr (sum_list (map plain_inserted (replies store False True hist batches))),
            hist @ batches)"
  using chunk_documents_indices(2) [OF assms] bulk_loop_trace [OF assms, of store clock hist]
  by (simp add: optimized_bulk_insert_def py_truediv_def Let_def)

lemma range_from_nth:
  "0 < b \<Longrightarrow> j < length (range_from i n b) \<Longrightarrow> range_from i n b ! j = i + int j * b"
proof (induction i n b arbitrary: j rule: range_from.induct)
  case (1 i n b)
  show ?case
  proof (cases "i < n")
    case False
    then have "range_from i n b = []"
      using "1.prems"(1) by (subst range_from.simps) simp
    then show ?thesis using "1.prems"(2) by simp
  next
    case True
    have unroll: "range_from i n b = i # range_from (i + b) n b"
      using True "1.prems"(1) by (subst range_from.simps) simp
    show ?thesis
    proof (cases j)
      case 0
      then show ?thesis by (simp add: unroll)
    next
      case (Suc k)
      then have "k < length (range_from (i + b) n b)"
        using "1.prems"(2) unroll by simp
      then have "range_from (i + b) n b ! k = i + b + int k * b"
        using "1.IH"(1) True "1.prems"(1) by simp
      then show ?thesis
        using Suc by (simp add: unroll algebra_simps)
    qed
  qed
qed

lemma error_lines_member:
  "j < length idx \<Longrightarrow> j < length rs \<Longrightarrow> \<not> is_success (rs ! j) \<Longrightarrow>
   (idx ! j div bsize + 1, Raised (rs ! j)) \<in> set (error_lines bsize idx rs)"
proof (induction bsize idx rs arbitrary: j rule: error_lines.induct)
  case (1 bsize i idx r rs)
  then show ?case by (cases j) auto
qed simp_all


text \<open>
  The first writer goes on after a hard failure. Whatever the store answers, every batch of
  the partition is submitted exactly once and in order (so no batch is retried or
  resubmitted), the call returns on its normal path with the end time stamped, and every
  batch on which the store raised has its entry in the error list.
\<close>

lemma bulk_insert_optimized_continues:
  assumes "documents \<noteq> []" and "collection conn \<noteq> None"
    and "chunk_documents (batch_size self) documents = Inr batches"
  shows "let R = bulk_insert_optimized store conn t0 t1 self documents ordered bypass hist
         in snd (snd R) = hist @ batches
          \<and> concat batches = (if 0 < batch_size self then documents else [])
          \<and> batches_reported (fst R) \<noteq> None
          \<and> end_time (stats (fst (snd R))) = Some t1
          \<and> (\<forall>j msg. j < length batches \<and>
                store (hist @ take j batches) (batches ! j) ordered bypass = OtherException msg
                \<longrightarrow> BatchError msg (length (batches ! j)) \<in> set (errors (fst R)))"
proof -
  note n = bulk_insert_normal [OF assms, of store t0 t1 ordered bypass hist]
  have cat: "concat batches = (if 0 < batch_size self then documents else [])"
  proof (cases "0 < batch_size self")
    case True
    then show ?thesis
      using assms(3) concat_windows_from [of "int (length documents)" documents "batch_size self" 0]
      by (auto simp: chunk_documents_def py_range_def)
  next
    case False
    then have "range_from 0 (int (length documents)) (batch_size self) = []"
      by (subst range_from.simps) simp
    then show ?thesis
      using assms(3) False by (auto simp: chunk_documents_def py_range_def split: if_splits)
  qed
  have rec: "BatchError msg (length (batches ! j)) \<in>
               set (concat (map2 reply_entries (replies store ordered bypass hist batches) batches))"
    if "j < length batches"
      and "store (hist @ take j batches) (batches ! j) ordered bypass = OtherException msg"
    for j msg
    using entries_recorded [OF that(1), of store hist ordered bypass] that(2) by simp
  let ?R = "bulk_insert_optimized store conn t0 t1 self documents ordered bypass hist"
  have w: "snd (snd ?R) = hist @ batches"
    unfolding n by (simp add: Let_def insert_batches_written)
  have fin: "batches_reported (fst ?R) \<noteq> None" "end_time (stats (fst (snd ?R))) = Some t1"
    unfolding n by (simp_all add: Let_def)
  have errs: "errors (fst ?R) =
                concat (map2 reply_entries (replies store ordered bypass hist batches) batches)"
    unfolding n by (simp add: Let_def insert_batches_errors)
  have logged: "\<forall>j msg. j < length batches \<and>
                store (hist @ take j batches) (batches ! j) ordered bypass = OtherException msg
                \<longrightarrow> BatchError msg (length (batches ! j)) \<in> set (errors (fst ?R))"
    unfolding errs using rec by blast
  show ?thesis
    unfolding Let_def by (intro conjI) (fact w cat fin logged)+
qed

text \<open>
  The loop of the second writer goes on after a hard failure as well. Every batch of the
  partition is submitted exactly once and in order, every batch on which the store raised
  has its error line printed with its number, and the counter is the sum of the counts of
  the plain results. The function then returns that counter when the clock reading after
  the loop differs from the first one, and raises ZeroDivisionError when it does not.
\<close>

lemma optimized_bulk_insert_continues:
  assumes "chunk_documents bsize documents = Inr batches"
  shows "let st = bulk_loop store clock documents bsize hist
                    (range_from 0 (int (length documents)) bsize);
             rs = replies store False True hist batches
         in bs_written st = hist @ batches
          \<and> (\<forall>j msg. j < length batches \<and>
                store (hist @ take j batches) (batches ! j) False True = OtherException msg
                \<longrightarrow> (int j + 1, Raised (OtherException msg)) \<in> set (bs_errors st))
          \<and> bs_inserted st = sum_list (map plain_inserted rs)
          \<and> optimized_bulk_insert store clock documents bsize hist =
              (if clock (1 + length (filter is_success rs)) = clock 0
               then Inl ZeroDivisionError else Inr (sum_list (map plain_inserted rs)),
               hist @ batches)"
proof -
  let ?idx = "range_from 0 (int (length documents)) bsize"
  let ?rs = "replies store False True hist batches"
  let ?st = "bulk_loop store clock documents bsize hist ?idx"
  note tr = bulk_loop_trace [OF assms, of store clock hist]
  note b = chunk_documents_indices [OF assms]
  have len: "length batches = length ?idx"
    unfolding b(3) by simp
  have printed: "(int j + 1, Raised (OtherException msg)) \<in> set (bs_errors ?st)"
    if j: "j < length batches"
      and r: "store (hist @ take j batches) (batches ! j) False True = OtherException msg"
    for j msg
  proof -
    have pos: "0 < bsize"
    proof (rule ccontr)
      assume "\<not> 0 < bsize"
      then have "?idx = []"
        by (subst range_from.simps) simp
      with j len show False by simp
    qed
    have "?idx ! j = int j * bsize"
      using range_from_nth [OF pos, of j 0 "int (length documents)"] j len by simp
    then have num: "?idx ! j div bsize + 1 = int j + 1"
      using pos by simp
    have rj: "?rs ! j = OtherException msg"
      using replies_nth [OF j, of store False True hist] r by simp
    have "(?idx ! j div bsize + 1, Raised (?rs ! j)) \<in> set (error_lines bsize ?idx ?rs)"
      using j len by (intro error_lines_member) (simp_all add: length_replies rj)
    then show ?thesis
      unfolding tr(3) num rj .
  qed
  have logged: "\<forall>j msg. j < length batches \<and>
                store (hist @ take j batches) (batches ! j) False True = OtherException msg
                \<longrightarrow> (int j + 1, Raised (OtherException msg)) \<in> set (bs_errors ?st)"
    using printed by blast
  note res = optimized_bulk_insert_result [OF assms, of store clock hist]
  show ?thesis
    unfolding Let_def by (intro conjI) (fact tr(1) logged tr(2) res)+
qed


section \<open>Invalid batch sizes\<close>

text \<open>
  C6 as stated fails: with the batch size -1 the partitioner raises nothing and yields no
  batch at all for a list of three documents.
\<close>

theorem negative_batch_size_counterexample:
  "chunk_documents (- 1) [1, 2, 3::nat] = Inr []"
  by (simp add: chunk_documents_def py_range_def range_from.simps)

text \<open>
  C6, as the code has it. For every batch size B > 0 the partitioner succeeds, and its
  batches concatenate to the input; for B = 0 it fails with the ValueError of
  \<^verbatim>\<open>range\<close>; for B < 0 it does not fail and yields no batch.
\<close>

theorem chunk_documents_batch_size_cases:
  "(0 < B \<longrightarrow> (\<exists>bs. chunk_documents B docs = Inr bs \<and> concat bs = docs))
   \<and> (B = 0 \<longrightarrow> chunk_documents B docs = Inl ValueError)
   \<and> (B < 0 \<longrightarrow> chunk_documents B docs = Inr [])"
proof (intro conjI impI)
  assume "0 < B"
  then show "\<exists>bs. chunk_documents B docs = Inr bs \<and> concat bs = docs"
    using concat_windows_from [of "int (length docs)" docs B 0]
    by (simp add: chunk_documents_def py_range_def)
next
  assume "B = 0"
  then show "chunk_documents B docs = Inl ValueError"
    by (simp add: chunk_documents_def py_range_def)
next
  assume "B < 0"
  then have "range_from 0 (int (length docs)) B = []"
    by (subst range_from.simps) simp
  then show "chunk_documents B docs = Inr []"
    using \<open>B < 0\<close> by (simp add: chunk_documents_def py_range_def)
qed

theorem chunk_documents_batch_size_cases_witness:
  "(0::int) < 2 \<and> (\<exists>bs. chunk_documents 2 [1, 2, 3::nat] = Inr bs \<and> concat bs = [1, 2, 3])
   \<and> chunk_documents 0 [1, 2, 3::nat] = Inl ValueError
   \<and> (- 1::int) < 0 \<and> chunk_documents (- 1) [1, 2, 3::nat] = Inr []"
  using chunk_documents_batch_size_cases [of 2 "[1, 2, 3::nat]"]
    chunk_documents_batch_size_cases [of 0 "[1, 2, 3::nat]"]
    chunk_documents_batch_size_cases [of "- 1" "[1, 2, 3::nat]"]
  by simp

section \<open>Missing connection string\<close>

text \<open>
  C7. When \<^verbatim>\<open>MONGODB_URI\<close> is absent from the environment (or empty), \<open>connect\<close> returns
  False and leaves the connection and the server as they were: no client is constructed.
  \<open>run\<close> then returns False without calling the upload, so no batch is written, and
  \<open>main\<close> returns the exit code 1.
\<close>

theorem missing_uri_aborts_before_any_write:
  assumes "mongodb_uri conn = None \<or> mongodb_uri conn = Some []"
  shows "connect ping conn srv = (False, conn, srv)
       \<and> fst (run ping process_zip_files conn srv zip_paths) = False
       \<and> written (snd (snd (run ping process_zip_files conn srv zip_paths))) = written srv
       \<and> clients_created (snd (snd (run ping process_zip_files conn srv zip_paths))) =
           clients_created srv
       \<and> fst (main ping process_zip_files conn srv zip_files) = 1
       \<and> written (snd (snd (main ping process_zip_files conn srv zip_files))) = written srv"
proof -
  have c: "connect ping conn srv = (False, conn, srv)"
    using assms by (auto simp: connect_def)
  then have r: "run ping process_zip_files conn srv paths = (False, conn, disconnect conn srv)"
    for paths
    by (simp add: run_def)
  show ?thesis
    using c by (simp add: r main_def disconnect_def)
qed

theorem missing_uri_aborts_before_any_write_witness:
  "let conn = fresh_connection None;
       srv = \<lparr>clients_created = 0, clients_closed = 0, written = ([] :: nat list list)\<rparr>;
       upload = (\<lambda>c s paths. (Some (length paths), s\<lparr>written := written s @ [[1]]\<rparr>))
   in (mongodb_uri conn = None \<or> mongodb_uri conn = Some [])
      \<and> connect (\<lambda>uri. PingOk) conn srv = (False, conn, srv)
      \<and> run (\<lambda>uri. PingOk) upload conn srv [''a.zip''] = (False, conn, srv)
      \<and> main (\<lambda>uri. PingOk) upload conn srv [''a.zip''] = (1, conn, srv)"
proof -
  let ?conn = "fresh_connection None"
  let ?srv = "\<lparr>clients_created = 0, clients_closed = 0, written = ([] :: nat list list)\<rparr>"
  have h: "mongodb_uri ?conn = None \<or> mongodb_uri ?conn = Some []"
    by (simp add: fresh_connection_def)
  from missing_uri_aborts_before_any_write [OF h, of "\<lambda>uri. PingOk" ?srv]
  have "connect (\<lambda>uri. PingOk) ?conn ?srv = (False, ?conn, ?srv)"
    by simp
  then show ?thesis
    using h by (simp add: Let_def run_def main_def disconnect_def fresh_connection_def)
qed

section \<open>Rates and division by zero\<close>

lemma get_performance_stats_guarded:
  "\<exists>r. get_performance_stats rnd self = Inr r"
  by (auto simp: get_performance_stats_def py_truediv_def Let_def
      split: option.split)

text \<open>
  C8. The claim is that every rate is guarded against a zero elapsed time. The rate of the
  progress line and both quotients of \<open>get_performance_stats\<close> are, but the final rate of
  \<open>optimized_bulk_insert\<close> is not: when the clock does not advance during the call, the
  function raises ZeroDivisionError, for the empty list and also after the only batch of a
  one-document list has been written.
\<close>

theorem final_rate_divides_by_zero:
  "optimized_bulk_insert accepting_store (\<lambda>k. 0) ([] :: nat list) 1000 [] =
     (Inl ZeroDivisionError, [])
   \<and> optimized_bulk_insert accepting_store (\<lambda>k. 0) [7::nat] 1000 [] =
     (Inl ZeroDivisionError, [[7]])"
  by (simp add: optimized_bulk_insert_def bulk_loop_def py_range_def range_from.simps
      py_truediv_def bulk_step_def py_slice_def slice_bound_def accepting_store_def Let_def)

end
